theory Spec2Isabelle
  imports Complex_Main "HOL-Library.Code_Target_Numeral"
begin

section \<open>The password hashing timing demo, embedded\<close>

text \<open>
  The program is \<^verbatim>\<open>password_timing_demo.py\<close>: four factories that return
  zero-argument closures (\<^verbatim>\<open>do_hash\<close>), the timer \<^verbatim>\<open>time_hasher\<close>, and the
  module's main block.

  Conventions of the embedding.
  \<^item> Python \<^verbatim>\<open>bytes\<close> and \<^verbatim>\<open>str\<close> are \<open>char list\<close>: one \<open>char\<close> is one byte of a
    \<^verbatim>\<open>bytes\<close> object and one character of a \<^verbatim>\<open>str\<close> (every string the program
    builds itself is ASCII).
  \<^item> Python \<^verbatim>\<open>int\<close> is \<open>int\<close>.
  \<^item> Python \<^verbatim>\<open>float\<close> is \<open>pyfloat\<close>, an IEEE 754 double: a sign and a magnitude, the
    infinities and NaN. Every arithmetic operation rounds its exact result to the nearest
    double, ties to the even significand, as the hardware does.
  \<^item> An exception is a value: every effectful operation returns \<open>exn + 'a\<close> together
    with the world it leaves behind, \<open>Inl\<close> being the raised exception.
  \<^item> The world records what the program can observe or do outside itself: the monotonic
    clock, the operating system's entropy, the library calls made so far, and the lines
    printed so far.
\<close>

subsection \<open>Values and exceptions\<close>

type_synonym bytes = "char list"

datatype exn = Exn (exn_class: string) (exn_msg: string)

definition ZeroDivisionError :: exn where
  "ZeroDivisionError = Exn ''ZeroDivisionError'' ''float division by zero''"

definition OverflowError :: exn where
  "OverflowError = Exn ''OverflowError'' ''int too large to convert to float''"

text \<open>The class of the exception an outcome carries, if it carries one.\<close>

definition raised :: "exn + 'a \<Rightarrow> string option" where
  "raised r = (case r of Inl e \<Rightarrow> Some (exn_class e) | Inr _ \<Rightarrow> None)"

subsection \<open>Floating point\<close>

text \<open>
  \<open>Finite s m\<close> is the double of magnitude \<open>m\<close>, negative when \<open>s\<close> holds; so
  \<open>Finite True 0\<close> is \<^verbatim>\<open>-0.0\<close>.
\<close>

datatype pyfloat = Finite bool rat | Infinity bool | NaN

fun is_finite :: "pyfloat \<Rightarrow> bool" where
  "is_finite (Finite s m) = True"
| "is_finite (Infinity s) = False"
| "is_finite NaN = False"

text \<open>Rounding to an integer, a tie going to the even neighbour.\<close>

definition round_half_even :: "rat \<Rightarrow> nat" where
  "round_half_even y =
     (let f = \<lfloor>y\<rfloor>; d = y - of_int f
      in nat (if d < 1 / 2 then f else if 1 / 2 < d then f + 1 else if even f then f else f + 1))"

definition pow2 :: "int \<Rightarrow> rat" where
  "pow2 k = (if 0 \<le> k then 2 ^ nat k else 1 / 2 ^ nat (- k))"

text \<open>\<open>\<lfloor>log\<^sub>2 n\<rfloor>\<close> for \<open>n \<ge> 1\<close>, and \<open>\<lfloor>log\<^sub>2 x\<rfloor>\<close> for a rational \<open>x > 0\<close>.\<close>

fun log2_nat :: "nat \<Rightarrow> nat" where
  "log2_nat n = (if n < 2 then 0 else Suc (log2_nat (n div 2)))"

declare log2_nat.simps [simp del]

definition ilog2 :: "rat \<Rightarrow> int" where
  "ilog2 x = (if 1 \<le> x then int (log2_nat (nat \<lfloor>x\<rfloor>))
              else - int (Suc (log2_nat (nat (\<lceil>1 / x\<rceil> - 1)))))"

text \<open>
  The nearest double to \<open>x > 0\<close>: a multiple of the spacing \<open>2\<^sup>e\<^sup>-\<^sup>5\<^sup>2\<close> of the doubles
  around \<open>x\<close>, where \<open>e = \<lfloor>log\<^sub>2 x\<rfloor>\<close> and \<open>e\<close> is at least \<open>-1022\<close> (below that the
  doubles are subnormal and equally spaced). An exact result of at least
  \<open>2\<^sup>1\<^sup>0\<^sup>2\<^sup>4 - 2\<^sup>9\<^sup>7\<^sup>0\<close>, half a spacing above the largest double, rounds to infinity.
\<close>

definition round_double :: "rat \<Rightarrow> rat" where
  "round_double x =
     (let q = pow2 (max (ilog2 x) (- 1022) - 52)
      in of_nat (round_half_even (x / q)) * q)"

definition overflow_threshold :: rat where
  "overflow_threshold = 2 ^ 1024 - 2 ^ 970"

definition fround :: "bool \<Rightarrow> rat \<Rightarrow> pyfloat" where
  "fround s x =
     (if overflow_threshold \<le> x then Infinity s
      else Finite s (if x = 0 then 0 else round_double x))"

definition float_of_rat :: "rat \<Rightarrow> pyfloat" where
  "float_of_rat x = fround (x < 0) \<bar>x\<bar>"

definition signed :: "bool \<Rightarrow> rat \<Rightarrow> rat" where
  "signed s m = (if s then - m else m)"

text \<open>\<^verbatim>\<open>a - b\<close>, \<^verbatim>\<open>a / b\<close> for \<open>b \<noteq> 0\<close> and \<^verbatim>\<open>a * b\<close> on floats; none of them raises.\<close>

fun fsub :: "pyfloat \<Rightarrow> pyfloat \<Rightarrow> pyfloat" where
  "fsub NaN b = NaN"
| "fsub a NaN = NaN"
| "fsub (Infinity s) (Infinity t) = (if s = t then NaN else Infinity s)"
| "fsub (Infinity s) (Finite t b) = Infinity s"
| "fsub (Finite s a) (Infinity t) = Infinity (\<not> t)"
| "fsub (Finite s a) (Finite t b) =
     (let d = signed s a - signed t b
      in if d = 0 then Finite (s \<and> \<not> t) 0 else fround (d < 0) \<bar>d\<bar>)"

fun fdiv :: "pyfloat \<Rightarrow> pyfloat \<Rightarrow> pyfloat" where
  "fdiv NaN b = NaN"
| "fdiv a NaN = NaN"
| "fdiv (Infinity s) (Infinity t) = NaN"
| "fdiv (Infinity s) (Finite t b) = Infinity (s \<noteq> t)"
| "fdiv (Finite s a) (Infinity t) = Finite (s \<noteq> t) 0"
| "fdiv (Finite s a) (Finite t b) =
     (if b = 0 then (if a = 0 then NaN else Infinity (s \<noteq> t)) else fround (s \<noteq> t) (a / b))"

fun fmul :: "pyfloat \<Rightarrow> pyfloat \<Rightarrow> pyfloat" where
  "fmul NaN b = NaN"
| "fmul a NaN = NaN"
| "fmul (Infinity s) (Infinity t) = Infinity (s \<noteq> t)"
| "fmul (Infinity s) (Finite t b) = (if b = 0 then NaN else Infinity (s \<noteq> t))"
| "fmul (Finite s a) (Infinity t) = (if a = 0 then NaN else Infinity (s \<noteq> t))"
| "fmul (Finite s a) (Finite t b) = fround (s \<noteq> t) (a * b)"

text \<open>\<^verbatim>\<open>a <= b\<close> on floats.\<close>

fun float_le :: "pyfloat \<Rightarrow> pyfloat \<Rightarrow> bool" where
  "float_le NaN b = False"
| "float_le a NaN = False"
| "float_le (Infinity s) (Infinity t) = (s \<or> s = t)"
| "float_le (Infinity s) (Finite t b) = s"
| "float_le (Finite s a) (Infinity t) = (\<not> t)"
| "float_le (Finite s a) (Finite t b) = (signed s a \<le> signed t b)"

text \<open>
  The conversion of an \<^verbatim>\<open>int\<close> operand to \<^verbatim>\<open>float\<close>: correctly rounded, and an
  \<^verbatim>\<open>OverflowError\<close> when the result would not be finite.
\<close>

definition float_of_int :: "int \<Rightarrow> exn + pyfloat" where
  "float_of_int n =
     (if overflow_threshold \<le> \<bar>of_int n\<bar> then Inl OverflowError
      else Inr (fround (n < 0) \<bar>of_int n\<bar>))"

text \<open>
  \<^verbatim>\<open>a / n\<close> for a float \<open>a\<close> and an int \<open>n\<close>: the int is converted first, a zero divisor
  raises, otherwise the floats are divided.
\<close>

definition float_truediv_int :: "pyfloat \<Rightarrow> int \<Rightarrow> exn + pyfloat" where
  "float_truediv_int a n =
     (case float_of_int n of
        Inl e \<Rightarrow> Inl e
      | Inr b \<Rightarrow> (if float_le b (Finite False 0) \<and> float_le (Finite False 0) b
                  then Inl ZeroDivisionError else Inr (fdiv a b)))"

subsection \<open>The world\<close>

text \<open>One entry per call into \<^verbatim>\<open>os\<close>, \<^verbatim>\<open>hashlib\<close>, \<^verbatim>\<open>bcrypt\<close> and \<^verbatim>\<open>argon2\<close>, with its arguments.\<close>

datatype argon2_type = Type_D | Type_I | Type_ID

datatype event =
    OsUrandom nat
  | BcryptGensalt int
  | Sha256Hexdigest bytes
  | BcryptHashpw bytes bytes
  | HashlibScrypt bytes bytes int int int
  | Argon2HashSecret bytes bytes int int int int argon2_type

record world =
  clock :: "nat \<Rightarrow> rat"
  ticks :: nat
  entropy :: "nat \<Rightarrow> char"
  drawn :: nat
  calls :: "event list"
  stdout :: "string list"

text \<open>
  \<^verbatim>\<open>time.perf_counter()\<close>: at its \<open>k\<close>-th reading the clock stands at \<open>clock w k\<close> seconds;
  the reading is the double nearest to that, and it advances \<open>ticks\<close>.
\<close>

definition perf_counter :: "world \<Rightarrow> pyfloat \<times> world" where
  "perf_counter w = (float_of_rat (clock w (ticks w)), w\<lparr>ticks := Suc (ticks w)\<rparr>)"

text \<open>\<^verbatim>\<open>print(s)\<close>: one more entry of \<open>stdout\<close> (the newline that ends it is left implicit).\<close>

definition py_print :: "string \<Rightarrow> world \<Rightarrow> world" where
  "py_print s w = w\<lparr>stdout := stdout w @ [s]\<rparr>"

text \<open>\<^verbatim>\<open>os.urandom(n)\<close>: the next \<open>n\<close> bytes of the entropy source.\<close>

definition next_bytes :: "nat \<Rightarrow> world \<Rightarrow> bytes" where
  "next_bytes n w = map (entropy w) [drawn w ..< drawn w + n]"

definition os_urandom :: "nat \<Rightarrow> world \<Rightarrow> bytes \<times> world" where
  "os_urandom n w =
     (next_bytes n w, w\<lparr>drawn := drawn w + n, calls := calls w @ [OsUrandom n]\<rparr>)"

subsection \<open>The library primitives\<close>

text \<open>
  The digest and the three password hashes are library code, outside the program. They
  are a parameter of the model: each is a function of its arguments that yields a value or
  raises. \<open>gensalt\<close> is \<^verbatim>\<open>bcrypt.gensalt\<close> as a function of the cost and of the 16 random
  bytes it draws.
\<close>

record lib =
  sha256_hexdigest :: "bytes \<Rightarrow> string"
  gensalt :: "int \<Rightarrow> bytes \<Rightarrow> exn + bytes"
  hashpw :: "bytes \<Rightarrow> bytes \<Rightarrow> exn + bytes"
  scrypt :: "bytes \<Rightarrow> bytes \<Rightarrow> int \<Rightarrow> int \<Rightarrow> int \<Rightarrow> exn + bytes"
  hash_secret :: "bytes \<Rightarrow> bytes \<Rightarrow> int \<Rightarrow> int \<Rightarrow> int \<Rightarrow> int \<Rightarrow> argon2_type \<Rightarrow> exn + bytes"

text \<open>
  \<^verbatim>\<open>bcrypt.gensalt(rounds=cost)\<close>: the library checks the cost, draws 16 bytes and encodes
  both into the salt; a rejected cost raises before anything is drawn.
\<close>

definition bcrypt_gensalt :: "lib \<Rightarrow> int \<Rightarrow> world \<Rightarrow> (exn + bytes) \<times> world" where
  "bcrypt_gensalt L rounds w =
     (case gensalt L rounds (next_bytes 16 w) of
        Inl e \<Rightarrow> (Inl e, w\<lparr>calls := calls w @ [BcryptGensalt rounds]\<rparr>)
      | Inr s \<Rightarrow> (Inr s, w\<lparr>drawn := drawn w + 16, calls := calls w @ [BcryptGensalt rounds]\<rparr>))"

text \<open>A library call whose result the closure discards: the call is recorded, an exception propagates.\<close>

definition discard :: "event \<Rightarrow> exn + 'a \<Rightarrow> world \<Rightarrow> (exn + unit) \<times> world" where
  "discard ev r w =
     (case r of Inl e \<Rightarrow> (Inl e, w\<lparr>calls := calls w @ [ev]\<rparr>)
              | Inr _ \<Rightarrow> (Inr (), w\<lparr>calls := calls w @ [ev]\<rparr>))"

subsection \<open>Hash function wrappers\<close>

text \<open>
  A closure is the data it captures. \<open>do_hash\<close> is the body of the inner function
  \<^verbatim>\<open>do_hash\<close> of each factory.
\<close>

datatype hasher =
    Sha256Hasher bytes
  | BcryptHasher bytes bytes
  | ScryptHasher bytes bytes int int int
  | Argon2idHasher bytes bytes int int int

fun do_hash :: "lib \<Rightarrow> hasher \<Rightarrow> world \<Rightarrow> (exn + unit) \<times> world" where
  "do_hash L (Sha256Hasher password) w =
     discard (Sha256Hexdigest password) (Inr (sha256_hexdigest L password)) w"
| "do_hash L (BcryptHasher password salt) w =
     discard (BcryptHashpw password salt) (hashpw L password salt) w"
| "do_hash L (ScryptHasher password salt n r p) w =
     discard (HashlibScrypt password salt n r p) (scrypt L password salt n r p) w"
| "do_hash L (Argon2idHasher password salt time_cost memory_cost parallelism) w =
     discard (Argon2HashSecret password salt time_cost memory_cost parallelism 32 Type_ID)
       (hash_secret L password salt time_cost memory_cost parallelism 32 Type_ID) w"

definition make_sha256_hasher :: "bytes \<Rightarrow> hasher" where
  "make_sha256_hasher password = Sha256Hasher password"

definition make_bcrypt_hasher :: "lib \<Rightarrow> bytes \<Rightarrow> int \<Rightarrow> world \<Rightarrow> (exn + hasher) \<times> world" where
  "make_bcrypt_hasher L password cost w =
     (case bcrypt_gensalt L cost w of
        (Inl e, w') \<Rightarrow> (Inl e, w')
      | (Inr salt, w') \<Rightarrow> (Inr (BcryptHasher password salt), w'))"

definition make_scrypt_hasher :: "bytes \<Rightarrow> int \<Rightarrow> int \<Rightarrow> int \<Rightarrow> world \<Rightarrow> hasher \<times> world" where
  "make_scrypt_hasher password n r p w =
     (case os_urandom 16 w of (salt, w') \<Rightarrow> (ScryptHasher password salt n r p, w'))"

definition make_argon2id_hasher :: "bytes \<Rightarrow> int \<Rightarrow> int \<Rightarrow> int \<Rightarrow> world \<Rightarrow> hasher \<times> world" where
  "make_argon2id_hasher password time_cost memory_cost parallelism w =
     (case os_urandom 16 w of
        (salt, w') \<Rightarrow> (Argon2idHasher password salt time_cost memory_cost parallelism, w'))"



subsection \<open>Formatting\<close>

text \<open>
  \<^verbatim>\<open>str(n)\<close> for an integer. The interpreter refuses to convert an integer of more than
  4300 decimal digits (its default limit) and raises \<^verbatim>\<open>ValueError\<close>.
\<close>

definition digit :: "nat \<Rightarrow> char" where
  "digit d = ''0123456789abcdef'' ! (d mod 16)"

fun str_nat :: "nat \<Rightarrow> string" where
  "str_nat n = (if n < 10 then [digit n] else str_nat (n div 10) @ [digit (n mod 10)])"

declare str_nat.simps [simp del]

definition str_int :: "int \<Rightarrow> string" where
  "str_int i = (if i < 0 then CHR ''-'' # str_nat (nat (- i)) else str_nat (nat i))"

definition int_max_str_digits :: nat where
  "int_max_str_digits = 4300"

definition py_str_int :: "int \<Rightarrow> exn + string" where
  "py_str_int i =
     (if int_max_str_digits < length (str_nat (nat \<bar>i\<bar>))
      then Inl (Exn ''ValueError''
                  ''Exceeds the limit (4300 digits) for integer string conversion; use sys.set_int_max_str_digits() to increase the limit'')
      else Inr (str_int i))"

text \<open>\<^verbatim>\<open>{name:10s}\<close>: a string is left-aligned and filled with spaces on the right.\<close>

definition ljust :: "nat \<Rightarrow> string \<Rightarrow> string" where
  "ljust width s = s @ replicate (width - length s) CHR '' ''"

text \<open>A number is right-aligned and filled with spaces on the left.\<close>

definition rjust :: "nat \<Rightarrow> string \<Rightarrow> string" where
  "rjust width s = replicate (width - length s) CHR '' '' @ s"

text \<open>
  \<^verbatim>\<open>{x:.2f}\<close>: the sign, then the magnitude rounded to hundredths (a tie goes to the even
  neighbour), with all integer digits, a point and two fractional digits. An infinity and
  NaN have their names.
\<close>

fun fmt_2f :: "pyfloat \<Rightarrow> string" where
  "fmt_2f (Finite s m) =
     (let c = round_half_even (m * 100)
      in (if s then ''-'' else '''') @ str_nat (c div 100) @ ''.''
           @ [digit (c mod 100 div 10), digit (c mod 10)])"
| "fmt_2f (Infinity s) = (if s then ''-inf'' else ''inf'')"
| "fmt_2f NaN = ''nan''"

text \<open>
  The f-string of \<^verbatim>\<open>time_hasher\<close>. Its fields are formatted from left to right; only
  the last one, \<^verbatim>\<open>{repeat}\<close>, can raise.
\<close>

definition result_line :: "string \<Rightarrow> pyfloat \<Rightarrow> int \<Rightarrow> exn + string" where
  "result_line name avg_ms repeat =
     (case py_str_int repeat of
        Inl e \<Rightarrow> Inl e
      | Inr r \<Rightarrow> Inr (ljust 10 name @ ''  '' @ rjust 8 (fmt_2f avg_ms) @ '' ms per hash (over ''
                      @ r @ '' runs)''))"

subsection \<open>Helper: timing function\<close>

type_synonym hash_func = "world \<Rightarrow> (exn + unit) \<times> world"

text \<open>
  \<^verbatim>\<open>for _ in range(repeat): hash_func()\<close>, for \<open>k\<close> remaining iterations. An exception
  leaves the loop at once.
\<close>

fun call_loop :: "nat \<Rightarrow> hash_func \<Rightarrow> world \<Rightarrow> (exn + unit) \<times> world" where
  "call_loop 0 hash_func w = (Inr (), w)"
| "call_loop (Suc k) hash_func w =
     (case hash_func w of
        (Inl e, w') \<Rightarrow> (Inl e, w')
      | (Inr _, w') \<Rightarrow> call_loop k hash_func w')"

text \<open>
  \<^verbatim>\<open>range(repeat)\<close> has \<open>nat repeat\<close> elements (none when \<open>repeat \<le> 0\<close>). The three
  arithmetic operations are those of the source, in its order: a float subtraction, the
  division of a float by an int, and a float multiplication by \<^verbatim>\<open>1000.0\<close>.
\<close>

definition time_hasher :: "string \<Rightarrow> hash_func \<Rightarrow> int \<Rightarrow> world \<Rightarrow> (exn + unit) \<times> world" where
  "time_hasher name hash_func repeat w =
     (case perf_counter w of
        (start, w1) \<Rightarrow>
          (case call_loop (nat repeat) hash_func w1 of
             (Inl e, w2) \<Rightarrow> (Inl e, w2)
           | (Inr _, w2) \<Rightarrow>
               (case perf_counter w2 of
                  (end', w3) \<Rightarrow>
                    (let total_seconds = fsub end' start
                     in case float_truediv_int total_seconds repeat of
                          Inl e \<Rightarrow> (Inl e, w3)
                        | Inr avg_s \<Rightarrow>
                            (let avg_ms = fmul avg_s (Finite False 1000)
                             in case result_line name avg_ms repeat of
                                  Inl e \<Rightarrow> (Inl e, w3)
                                | Inr line \<Rightarrow> (Inr (), py_print line w3))))))"

text \<open>The world one invocation of a callable leaves behind.\<close>

definition after :: "hash_func \<Rightarrow> world \<Rightarrow> world" where
  "after hash_func w = snd (hash_func w)"

subsection \<open>Configuration\<close>

text \<open>
  The module-level constants. The main block reads them only; the model takes them as
  a record, whose value in the source is \<open>module_constants\<close>.
\<close>

record config =
  PASSWORD :: bytes
  REPEAT :: int
  BCRYPT_COST :: int
  SCRYPT_N :: int
  SCRYPT_R :: int
  SCRYPT_P :: int
  ARGON2_TIME_COST :: int
  ARGON2_MEMORY_COST :: int
  ARGON2_PARALLELISM :: int

definition module_constants :: config where
  "module_constants =
     \<lparr>PASSWORD = ''correct horse battery staple'',
      REPEAT = 100,
      BCRYPT_COST = 12,
      SCRYPT_N = 2 ^ 14,
      SCRYPT_R = 8,
      SCRYPT_P = 1,
      ARGON2_TIME_COST = 2,
      ARGON2_MEMORY_COST = 64000,
      ARGON2_PARALLELISM = 1\<rparr>"

subsection \<open>Main\<close>

text \<open>
  \<^verbatim>\<open>repr\<close> of a \<^verbatim>\<open>bytes\<close> object: single quotes unless the value holds a single quote
  and no double quote; the quote and the backslash are escaped, tab, newline and carriage
  return have their letter, every other byte outside the printable ASCII range is
  \<^verbatim>\<open>\xhh\<close>.
\<close>

definition repr_quote :: "bytes \<Rightarrow> char" where
  "repr_quote b = (if CHR 0x27 \<in> set b \<and> CHR 0x22 \<notin> set b then CHR 0x22 else CHR 0x27)"

definition repr_byte :: "char \<Rightarrow> char \<Rightarrow> string" where
  "repr_byte quote c =
     (if c = quote \<or> c = CHR 0x5C then [CHR 0x5C, c]
      else if c = CHR 0x09 then [CHR 0x5C, CHR ''t'']
      else if c = CHR 0x0A then [CHR 0x5C, CHR ''n'']
      else if c = CHR 0x0D then [CHR 0x5C, CHR ''r'']
      else if (of_char c :: nat) < 32 \<or> 127 \<le> (of_char c :: nat)
           then [CHR 0x5C, CHR ''x'', digit (of_char c div 16), digit (of_char c mod 16)]
      else [c])"

definition bytes_repr :: "bytes \<Rightarrow> string" where
  "bytes_repr b =
     (let quote = repr_quote b
      in CHR ''b'' # quote # concat (map (repr_byte quote) b) @ [quote])"

text \<open>An f-string: its pieces from left to right, the first that raises ending it.\<close>

fun fstring :: "(exn + string) list \<Rightarrow> exn + string" where
  "fstring [] = Inr []"
| "fstring (Inl e # rest) = Inl e"
| "fstring (Inr s # rest) = (case fstring rest of Inl e \<Rightarrow> Inl e | Inr t \<Rightarrow> Inr (s @ t))"

text \<open>
  What the main block prints before it builds the closures, one entry per \<^verbatim>\<open>print\<close>:
  the text, or the exception that formatting it raises.
\<close>

definition header_lines :: "config \<Rightarrow> (exn + string) list" where
  "header_lines cfg =
     [Inr (''Password hashing timing demo'' @ [CHR 0x0A]),
      Inr (''Password: '' @ bytes_repr (PASSWORD cfg)),
      fstring [Inr ''Repetitions per algorithm: '', py_str_int (REPEAT cfg)],
      Inr '''',
      Inr ''Parameters used:'',
      fstring [Inr ''- bcrypt:  cost='', py_str_int (BCRYPT_COST cfg)],
      fstring [Inr ''- scrypt:  N='', py_str_int (SCRYPT_N cfg), Inr '', r='',
               py_str_int (SCRYPT_R cfg), Inr '', p='', py_str_int (SCRYPT_P cfg)],
      fstring [Inr ''- Argon2id: time_cost='', py_str_int (ARGON2_TIME_COST cfg),
               Inr '', memory_cost='', py_str_int (ARGON2_MEMORY_COST cfg), Inr '' KiB, '',
               Inr ''parallelism='', py_str_int (ARGON2_PARALLELISM cfg)],
      Inr '''']"

text \<open>The \<^verbatim>\<open>print\<close> calls in order; the first text that cannot be formatted raises.\<close>

fun print_lines :: "(exn + string) list \<Rightarrow> world \<Rightarrow> (exn + unit) \<times> world" where
  "print_lines [] w = (Inr (), w)"
| "print_lines (Inl e # rest) w = (Inl e, w)"
| "print_lines (Inr s # rest) w = print_lines rest (py_print s w)"

text \<open>The four \<^verbatim>\<open>time_hasher\<close> calls that end the main block; an exception ends the run.\<close>

fun run_timings :: "lib \<Rightarrow> int \<Rightarrow> (string \<times> hasher) list \<Rightarrow> world \<Rightarrow> (exn + unit) \<times> world" where
  "run_timings L repeat [] w = (Inr (), w)"
| "run_timings L repeat ((name, h) # rest) w =
     (case time_hasher name (do_hash L h) repeat w of
        (Inl e, w') \<Rightarrow> (Inl e, w')
      | (Inr _, w') \<Rightarrow> run_timings L repeat rest w')"

text \<open>
  The block under \<^verbatim>\<open>if __name__ == "__main__"\<close>. Nothing in it catches an exception:
  whatever a \<^verbatim>\<open>print\<close>, a factory or a timing raises leaves the block.
\<close>

definition main_block :: "config \<Rightarrow> lib \<Rightarrow> world \<Rightarrow> (exn + unit) \<times> world" where
  "main_block cfg L w =
     (case print_lines (header_lines cfg) w of
        (Inl e, w1) \<Rightarrow> (Inl e, w1)
      | (Inr _, w1) \<Rightarrow>
          (let sha256_hasher = make_sha256_hasher (PASSWORD cfg)
           in case make_bcrypt_hasher L (PASSWORD cfg) (BCRYPT_COST cfg) w1 of
                (Inl e, w2) \<Rightarrow> (Inl e, w2)
              | (Inr bcrypt_hasher, w2) \<Rightarrow>
                  (case make_scrypt_hasher (PASSWORD cfg) (SCRYPT_N cfg) (SCRYPT_R cfg)
                          (SCRYPT_P cfg) w2 of
                     (scrypt_hasher, w3) \<Rightarrow>
                       (case make_argon2id_hasher (PASSWORD cfg) (ARGON2_TIME_COST cfg)
                               (ARGON2_MEMORY_COST cfg) (ARGON2_PARALLELISM cfg) w3 of
                          (argon2id_hasher, w4) \<Rightarrow>
                            run_timings L (REPEAT cfg)
                              [(''SHA-256'', sha256_hasher), (''bcrypt'', bcrypt_hasher),
                               (''scrypt'', scrypt_hasher), (''Argon2id'', argon2id_hasher)]
                              (py_print (''Average time per hash:'' @ [CHR 0x0A]) w4)))))"

text \<open>
  The exit status of the interpreter: 1 when an exception leaves the main block, 0 when the
  block runs to its end.
\<close>

definition exit_status :: "exn + unit \<Rightarrow> nat" where
  "exit_status r = (case r of Inl e \<Rightarrow> 1 | Inr _ \<Rightarrow> 0)"

subsection \<open>Other layouts of the result line\<close>

text \<open>
  For comparison with \<open>result_line\<close>, two layouts without the two spaces that separate
  the name from the latency. In \<open>left_padded_line\<close> the name is filled with spaces on its
  left up to 10 characters; in \<open>left_aligned_line\<close> it is filled on its right. In both the
  name field is directly followed by the latency right-aligned to 8 characters, and that
  by the text about the runs.
\<close>

definition left_padded_line :: "string \<Rightarrow> pyfloat \<Rightarrow> int \<Rightarrow> string" where
  "left_padded_line name avg_ms repeat =
     rjust 10 name @ rjust 8 (fmt_2f avg_ms) @ '' ms per hash (over ''
       @ str_int repeat @ '' runs)''"

definition left_aligned_line :: "string \<Rightarrow> pyfloat \<Rightarrow> int \<Rightarrow> string" where
  "left_aligned_line name avg_ms repeat =
     ljust 10 name @ rjust 8 (fmt_2f avg_ms) @ '' ms per hash (over ''
       @ str_int repeat @ '' runs)''"

subsection \<open>Sample inputs\<close>

text \<open>
  A library that accepts a bcrypt cost from 4 to 31 and an scrypt cost that is a power of
  two above 1, and whose hashes are the salt followed by the password; a world whose clock
  advances by a quarter of a second per reading and whose entropy changes after 16 bytes;
  a callable that does nothing, and one that raises on its \<open>m\<close>-th invocation, counting the
  calls recorded so far; the module constants with a bcrypt cost of 3.
\<close>

definition sample_lib :: lib where
  "sample_lib =
     \<lparr>sha256_hexdigest = (\<lambda>password. ''digest''),
      gensalt = (\<lambda>rounds r. if rounds < 4 \<or> 31 < rounds
                              then Inl (Exn ''ValueError'' ''Invalid rounds'')
                              else Inr (''$2b$'' @ str_int rounds @ ''$'' @ r)),
      hashpw = (\<lambda>password salt. Inr (salt @ password)),
      scrypt = (\<lambda>password salt n r p.
                  if 2 \<le> n \<and> 2 ^ log2_nat (nat n) = n
                  then Inr (salt @ password)
                  else Inl (Exn ''ValueError'' ''n must be a power of 2.'')),
      hash_secret = (\<lambda>password salt t m p l ty. Inr (salt @ password))\<rparr>"

definition sample_world :: world where
  "sample_world =
     \<lparr>clock = (\<lambda>k. of_nat k / 4), ticks = 0,
      entropy = (\<lambda>i. if i < 16 then CHR ''a'' else CHR ''b''), drawn = 0,
      calls = [], stdout = []\<rparr>"

definition world_at :: "rat \<Rightarrow> rat \<Rightarrow> world" where
  "world_at t0 t1 =
     \<lparr>clock = (\<lambda>k. if k = 0 then t0 else t1), ticks = 0,
      entropy = (\<lambda>i. CHR ''a''), drawn = 0, calls = [], stdout = []\<rparr>"

definition noop :: hash_func where
  "noop w = (Inr (), w)"

definition failing_stub :: "nat \<Rightarrow> hash_func" where
  "failing_stub m w =
     (let w' = w\<lparr>calls := calls w @ [Sha256Hexdigest ''stub'']\<rparr>
      in if length (calls w') = m then (Inl (Exn ''RuntimeError'' ''boom''), w') else (Inr (), w'))"

definition low_cost_constants :: config where
  "low_cost_constants = module_constants\<lparr>BCRYPT_COST := 3\<rparr>"

section \<open>Evaluation at concrete inputs\<close>

text \<open>
  The recursive functions unfold one step at a time, under a condition that a concrete
  argument decides.
\<close>

lemma str_nat_small: "n < 10 \<Longrightarrow> str_nat n = [digit n]"
  by (simp add: str_nat.simps)

lemma str_nat_big: "10 \<le> n \<Longrightarrow> str_nat n = str_nat (n div 10) @ [digit (n mod 10)]"
  by (subst str_nat.simps) simp

lemma log2_nat_small: "n < 2 \<Longrightarrow> log2_nat n = 0"
  by (simp add: log2_nat.simps)

lemma log2_nat_big: "2 \<le> n \<Longrightarrow> log2_nat n = Suc (log2_nat (n div 2))"
  by (subst log2_nat.simps) simp

lemma floor_rat_numeral_div: "\<lfloor>(numeral a :: rat) / numeral b\<rfloor> = numeral a div numeral b"
  using floor_divide_of_int_eq [of "numeral a" "numeral b", where ?'a = rat] by simp

lemma ceiling_rat_numeral_div:
  "\<lceil>(numeral a :: rat) / numeral b\<rceil> = - ((- numeral a) div numeral b)"
  using floor_divide_of_int_eq [of "- numeral a" "numeral b", where ?'a = rat]
  by (simp add: ceiling_def)

lemma replicate_numeral: "replicate (numeral k) x = x # replicate (pred_numeral k) x"
  by (simp add: numeral_eq_Suc)

lemmas float_eval = round_half_even_def pow2_def ilog2_def round_double_def
  overflow_threshold_def fround_def float_of_rat_def signed_def float_of_int_def
  float_truediv_int_def log2_nat_small log2_nat_big floor_rat_numeral_div
  ceiling_rat_numeral_div Let_def

lemmas fmt_eval = result_line_def py_str_int_def int_max_str_digits_def ljust_def rjust_def
  str_int_def str_nat_small str_nat_big digit_def replicate_numeral
  round_half_even_def floor_rat_numeral_div Let_def

section \<open>The loop and the arithmetic\<close>

subsection \<open>The loop runs the callable until it raises\<close>

lemma call_loop_ok_state:
  "fst (call_loop n f w) = Inr () \<Longrightarrow> snd (call_loop n f w) = (after f ^^ n) w"
proof (induction n arbitrary: w)
  case 0
  then show ?case by simp
next
  case (Suc n)
  obtain r w' where fw: "f w = (r, w')" by (cases "f w")
  show ?case
  proof (cases r)
    case (Inl e)
    with fw Suc.prems show ?thesis by simp
  next
    case (Inr u)
    with fw Suc.prems have "fst (call_loop n f w') = Inr ()" by simp
    then have "snd (call_loop n f w') = (after f ^^ n) w'" by (rule Suc.IH)
    moreover have "w' = after f w" using fw by (simp add: after_def)
    ultimately show ?thesis using fw Inr by (simp add: funpow_swap1)
  qed
qed

lemma call_loop_ok_iff:
  "fst (call_loop n f w) = Inr () \<longleftrightarrow> (\<forall>k<n. fst (f ((after f ^^ k) w)) = Inr ())"
proof (induction n arbitrary: w)
  case 0
  then show ?case by simp
next
  case (Suc n)
  obtain r w' where fw: "f w = (r, w')" by (cases "f w")
  have w': "w' = after f w" using fw by (simp add: after_def)
  show ?case
  proof (cases r)
    case (Inl e)
    have "fst (f ((after f ^^ 0) w)) \<noteq> Inr ()" using fw Inl by simp
    then have "\<not> (\<forall>k<Suc n. fst (f ((after f ^^ k) w)) = Inr ())" by blast
    then show ?thesis using fw Inl by simp
  next
    case (Inr u)
    have "fst (call_loop (Suc n) f w) = Inr () \<longleftrightarrow> fst (call_loop n f w') = Inr ()"
      using fw Inr by simp
    also have "\<dots> \<longleftrightarrow> (\<forall>k<n. fst (f ((after f ^^ k) w')) = Inr ())" by (rule Suc.IH)
    also have "\<dots> \<longleftrightarrow> (\<forall>k<n. fst (f ((after f ^^ Suc k) w)) = Inr ())"
      by (simp add: w' funpow_swap1)
    also have "\<dots> \<longleftrightarrow> (\<forall>k<Suc n. fst (f ((after f ^^ k) w)) = Inr ())"
    proof
      assume a: "\<forall>k<n. fst (f ((after f ^^ Suc k) w)) = Inr ()"
      show "\<forall>k<Suc n. fst (f ((after f ^^ k) w)) = Inr ()"
      proof (intro allI impI)
        fix k assume "k < Suc n"
        show "fst (f ((after f ^^ k) w)) = Inr ()"
        proof (cases k)
          case 0
          then show ?thesis using fw Inr by simp
        next
          case (Suc j)
          with \<open>k < Suc n\<close> a show ?thesis by simp
        qed
      qed
    next
      assume "\<forall>k<Suc n. fst (f ((after f ^^ k) w)) = Inr ()"
      then show "\<forall>k<n. fst (f ((after f ^^ Suc k) w)) = Inr ()" by auto
    qed
    finally show ?thesis .
  qed
qed

lemma call_loop_fail:
  "k < n \<Longrightarrow> \<forall>j<k. fst (f ((after f ^^ j) w)) = Inr () \<Longrightarrow>
   f ((after f ^^ k) w) = (Inl e, w') \<Longrightarrow> call_loop n f w = (Inl e, w')"
proof (induction n arbitrary: w k)
  case 0
  then show ?case by simp
next
  case (Suc n)
  show ?case
  proof (cases k)
    case 0
    with Suc.prems show ?thesis by simp
  next
    case (Suc k')
    have "fst (f ((after f ^^ 0) w)) = Inr ()" using Suc.prems(2) Suc by blast
    then have fw: "f w = (Inr (), after f w)" by (simp add: after_def prod_eq_iff)
    have "k' < n" using Suc.prems(1) Suc by simp
    moreover have "\<forall>j<k'. fst (f ((after f ^^ j) (after f w))) = Inr ()"
    proof (intro allI impI)
      fix j assume "j < k'"
      then have "Suc j < k" using Suc by simp
      then have "fst (f ((after f ^^ Suc j) w)) = Inr ()" using Suc.prems(2) by blast
      then show "fst (f ((after f ^^ j) (after f w))) = Inr ()" by (simp add: funpow_swap1)
    qed
    moreover have "f ((after f ^^ k') (after f w)) = (Inl e, w')"
      using Suc.prems(3) Suc by (simp add: funpow_swap1)
    ultimately have "call_loop n f (after f w) = (Inl e, w')" by (rule Suc.IH)
    then show ?thesis using fw by simp
  qed
qed

subsection \<open>Facts about the floating-point operations\<close>

lemma pow2_power_int: "pow2 k = 2 powi k"
  by (simp add: pow2_def power_int_def power_inverse [symmetric] inverse_eq_divide power_one_over)

lemma pow2_pos: "0 < pow2 k"
  by (simp add: pow2_power_int)

lemma round_double_nonneg: "0 \<le> round_double x"
  using pow2_pos [of "max (ilog2 x) (- 1022) - 52"]
  by (simp add: round_double_def Let_def)

lemma log2_nat_le: "1 \<le> n \<Longrightarrow> 2 ^ log2_nat n \<le> n"
proof (induction n rule: log2_nat.induct)
  case (1 n)
  show ?case
  proof (cases "n < 2")
    case True
    with "1.prems" show ?thesis by (simp add: log2_nat_small)
  next
    case False
    then have "1 \<le> n div 2" by simp
    with False have "2 ^ log2_nat (n div 2) \<le> n div 2" by (intro "1.IH") simp_all
    then have "2 * 2 ^ log2_nat (n div 2) \<le> 2 * (n div 2)" by simp
    also have "\<dots> \<le> n" by simp
    finally show ?thesis using False by (simp add: log2_nat_big)
  qed
qed

lemma round_half_even_ge_floor: "nat \<lfloor>y\<rfloor> \<le> round_half_even y"
  by (simp add: round_half_even_def Let_def nat_le_eq_zle nat_mono)

lemma round_double_pos:
  assumes "1 \<le> x"
  shows "0 < round_double x"
proof -
  let ?n = "nat \<lfloor>x\<rfloor>"
  let ?q = "pow2 (max (ilog2 x) (- 1022) - 52)"
  have n1: "1 \<le> ?n" using assms by (simp add: le_nat_iff le_floor_iff)
  have e: "ilog2 x = int (log2_nat ?n)" using assms by (simp add: ilog2_def)
  have "?q = 2 powi (int (log2_nat ?n) - 52)" by (simp add: e pow2_power_int max_def)
  also have "\<dots> \<le> (2::rat) powi (int (log2_nat ?n))" by (rule power_int_increasing) simp_all
  also have "\<dots> = of_nat (2 ^ log2_nat ?n)" by simp
  also have "\<dots> \<le> of_nat ?n" using log2_nat_le [OF n1] by (simp only: of_nat_le_iff)
  also have "\<dots> \<le> x" using assms by (simp add: of_nat_nat) 
  finally have qx: "?q \<le> x" .
  have qpos: "0 < ?q" by (rule pow2_pos)
  then have "1 \<le> x / ?q" using qx by (simp add: le_divide_eq)
  then have "1 \<le> \<lfloor>x / ?q\<rfloor>" by (simp add: le_floor_iff)
  then have "1 \<le> nat \<lfloor>x / ?q\<rfloor>" by linarith
  then have "1 \<le> round_half_even (x / ?q)" using round_half_even_ge_floor [of "x / ?q"] by linarith
  then have "0 < (of_nat (round_half_even (x / ?q)) :: rat)" by simp
  then show ?thesis using qpos by (simp add: round_double_def Let_def)
qed

text \<open>The conversion of an int: which ints convert, and that only 0 converts to a zero.\<close>

lemma float_of_int_overflow:
  "overflow_threshold \<le> \<bar>of_int n\<bar> \<Longrightarrow> float_of_int n = Inl OverflowError"
  by (simp add: float_of_int_def)

lemma float_of_int_zero: "float_of_int 0 = Inr (Finite False 0)"
  by (simp add: float_of_int_def fround_def overflow_threshold_def)

lemma float_of_int_nonzero:
  assumes "n \<noteq> 0" and "\<bar>of_int n\<bar> < overflow_threshold"
  shows "float_of_int n = Inr (Finite (n < 0) (round_double \<bar>of_int n\<bar>))"
    and "0 < round_double \<bar>of_int n\<bar>"
proof -
  have "1 \<le> \<bar>n\<bar>" using assms(1) by simp
  then have "(1::rat) \<le> \<bar>of_int n\<bar>" by (metis of_int_1_le_iff of_int_abs)
  then show "0 < round_double \<bar>of_int n\<bar>" by (rule round_double_pos)
  show "float_of_int n = Inr (Finite (n < 0) (round_double \<bar>of_int n\<bar>))"
    using assms by (simp add: float_of_int_def fround_def)
qed

lemma float_truediv_int_zero: "float_truediv_int a 0 = Inl ZeroDivisionError"
  by (simp add: float_truediv_int_def float_of_int_zero signed_def)

lemma float_truediv_int_overflow:
  "overflow_threshold \<le> \<bar>of_int n\<bar> \<Longrightarrow> float_truediv_int a n = Inl OverflowError"
  by (simp add: float_truediv_int_def float_of_int_overflow)

lemma float_truediv_int_value:
  assumes "n \<noteq> 0" and "\<bar>of_int n\<bar> < overflow_threshold"
  shows "float_truediv_int a n = Inr (fdiv a (Finite (n < 0) (round_double \<bar>of_int n\<bar>)))"
proof -
  define m where "m = round_double \<bar>of_int n\<bar>"
  have f: "float_of_int n = Inr (Finite (n < 0) m)" and m: "0 < m"
    using float_of_int_nonzero [OF assms] by (simp_all add: m_def)
  have "\<not> (float_le (Finite (n < 0) m) (Finite False 0)
            \<and> float_le (Finite False 0) (Finite (n < 0) m))"
    using m by (simp add: signed_def)
  then have "float_truediv_int a n = Inr (fdiv a (Finite (n < 0) m))"
    unfolding float_truediv_int_def f by simp
  then show ?thesis by (simp only: m_def)
qed

text \<open>An int that converts to a float has far fewer than 4300 digits.\<close>

lemma length_str_nat: "0 < k \<Longrightarrow> n < 10 ^ k \<Longrightarrow> length (str_nat n) \<le> k"
proof (induction n arbitrary: k rule: str_nat.induct)
  case (1 n)
  show ?case
  proof (cases "n < 10")
    case True
    with "1.prems" show ?thesis by (simp add: str_nat_small)
  next
    case False
    obtain j where k: "k = Suc j" using "1.prems"(1) by (cases k) simp_all
    have "0 < j" using False "1.prems"(2) k by (cases j) simp_all
    moreover have "n div 10 < 10 ^ j" using "1.prems"(2) k by (simp add: less_mult_imp_div_less)
    ultimately have "length (str_nat (n div 10)) \<le> j" using False by (intro "1.IH") simp_all
    then show ?thesis using False k by (simp add: str_nat_big)
  qed
qed

lemma py_str_int_convertible:
  assumes "\<bar>of_int n\<bar> < overflow_threshold"
  shows "py_str_int n = Inr (str_int n)"
proof -
  have "(of_int \<bar>n\<bar> :: rat) < 2 ^ 1024" using assms by (simp add: overflow_threshold_def)
  also have "\<dots> < of_int (10 ^ 309)" by simp
  finally have "\<bar>n\<bar> < 10 ^ 309" by (simp only: of_int_less_iff)
  then have "nat \<bar>n\<bar> < 10 ^ 309" by (simp add: nat_less_iff)
  then have "length (str_nat (nat \<bar>n\<bar>)) \<le> 309" by (intro length_str_nat) simp_all
  then show ?thesis by (simp add: py_str_int_def int_max_str_digits_def)
qed

subsection \<open>The ways out of the timer\<close>

lemma time_hasher_after_loop:
  assumes "fst (call_loop (nat repeat) f (snd (perf_counter w))) = Inr ()"
  shows "time_hasher name f repeat w =
     (let w2 = (after f ^^ nat repeat) (snd (perf_counter w));
          w3 = snd (perf_counter w2);
          total_seconds = fsub (fst (perf_counter w2)) (fst (perf_counter w))
      in case float_truediv_int total_seconds repeat of
           Inl e \<Rightarrow> (Inl e, w3)
         | Inr avg_s \<Rightarrow>
             (case result_line name (fmul avg_s (Finite False 1000)) repeat of
                Inl e \<Rightarrow> (Inl e, w3)
              | Inr line \<Rightarrow> (Inr (), py_print line w3)))"
proof -
  let ?w1 = "snd (perf_counter w)"
  have s: "snd (call_loop (nat repeat) f ?w1) = (after f ^^ nat repeat) ?w1"
    using assms by (rule call_loop_ok_state)
  have "call_loop (nat repeat) f ?w1 = (Inr (), (after f ^^ nat repeat) ?w1)"
    using assms s by (simp add: prod_eq_iff)
  then show ?thesis
    by (cases "perf_counter w", cases "perf_counter ((after f ^^ nat repeat) ?w1)")
       (simp add: time_hasher_def Let_def split: sum.splits)
qed

lemma time_hasher_prints:
  assumes "fst (call_loop (nat repeat) f (snd (perf_counter w))) = Inr ()"
    and "repeat \<noteq> 0" and "\<bar>of_int repeat\<bar> < overflow_threshold"
  shows "time_hasher name f repeat w =
     (let w2 = (after f ^^ nat repeat) (snd (perf_counter w));
          total_seconds = fsub (fst (perf_counter w2)) (fst (perf_counter w));
          avg_ms = fmul (fdiv total_seconds (fround (repeat < 0) \<bar>of_int repeat\<bar>))
                     (Finite False 1000)
      in (Inr (), py_print (ljust 10 name @ ''  '' @ rjust 8 (fmt_2f avg_ms)
                              @ '' ms per hash (over '' @ str_int repeat @ '' runs)'')
                    (snd (perf_counter w2))))"
proof -
  have r: "fround (repeat < 0) \<bar>of_int repeat\<bar>
             = Finite (repeat < 0) (round_double \<bar>of_int repeat\<bar>)"
    using assms(2,3) by (simp add: fround_def)
  show ?thesis
    unfolding time_hasher_after_loop [OF assms(1)] r
    by (simp add: Let_def float_truediv_int_value [OF assms(2,3)] result_line_def
                  py_str_int_convertible [OF assms(3)])
qed

lemma time_hasher_overflow:
  assumes "fst (call_loop (nat repeat) f (snd (perf_counter w))) = Inr ()"
    and "overflow_threshold \<le> \<bar>of_int repeat\<bar>"
  shows "time_hasher name f repeat w =
     (Inl OverflowError, snd (perf_counter ((after f ^^ nat repeat) (snd (perf_counter w)))))"
  unfolding time_hasher_after_loop [OF assms(1)]
  by (simp add: Let_def float_truediv_int_overflow [OF assms(2)])

lemma time_hasher_zero:
  "time_hasher name f 0 w = (Inl ZeroDivisionError, w\<lparr>ticks := Suc (Suc (ticks w))\<rparr>)"
proof -
  have l: "fst (call_loop (nat 0) f (snd (perf_counter w))) = Inr ()" by simp
  show ?thesis
    unfolding time_hasher_after_loop [OF l]
    by (simp add: Let_def float_truediv_int_zero perf_counter_def)
qed

lemma time_hasher_failure:
  assumes "k < nat repeat"
    and "\<forall>j<k. fst (f ((after f ^^ j) (snd (perf_counter w)))) = Inr ()"
    and "f ((after f ^^ k) (snd (perf_counter w))) = (Inl e, w')"
  shows "time_hasher name f repeat w = (Inl e, w')"
proof -
  have "call_loop (nat repeat) f (snd (perf_counter w)) = (Inl e, w')"
    using assms by (rule call_loop_fail)
  then show ?thesis by (cases "perf_counter w") (simp add: time_hasher_def)
qed

lemma funpow_two: "(f ^^ 2) x = f (f x)"
  by (simp add: numeral_2_eq_2)

lemma after_noop: "(after noop ^^ n) w = w"
  by (induction n) (simp_all add: after_def noop_def)

section \<open>The timer\<close>

text \<open>
  Claim C9. With \<open>repeat = 0\<close> the callable is never invoked (the outcome does not depend on it
  and the world changes by the two clock readings only), and the division raises
  \<open>ZeroDivisionError\<close>.
\<close>

theorem time_hasher_zero_repeat:
  "time_hasher name hash_func 0 w = (Inl ZeroDivisionError, w\<lparr>ticks := Suc (Suc (ticks w))\<rparr>)"
  by (rule time_hasher_zero)

text \<open>
  Claim C4, as the code has it. With \<open>repeat \<le> 0\<close> the callable is never invoked: the
  outcome does not depend on it, and the world changes by the two clock readings (and the
  printed line, if there is one) only. What happens then depends on \<open>repeat\<close>:
  \<^item> for \<open>repeat = 0\<close> the division raises \<open>ZeroDivisionError\<close>;
  \<^item> for \<open>repeat \<le> -(2\<^sup>1\<^sup>0\<^sup>2\<^sup>4 - 2\<^sup>9\<^sup>7\<^sup>0)\<close> the conversion of \<open>repeat\<close> to a float raises
    \<open>OverflowError\<close>, and nothing is printed;
  \<^item> for every other negative \<open>repeat\<close> nothing is raised: the timer prints a result line
    and returns. The latency on that line is the difference of the two readings, divided
    by the float of \<open>repeat\<close>, times \<^verbatim>\<open>1000.0\<close>, each operation rounded to a double.
\<close>

theorem time_hasher_nonpositive_repeat:
  assumes "repeat \<le> 0"
  shows "time_hasher name hash_func repeat w =
     (let start = float_of_rat (clock w (ticks w));
          end' = float_of_rat (clock w (Suc (ticks w)));
          w3 = w\<lparr>ticks := Suc (Suc (ticks w))\<rparr>;
          avg_ms = fmul (fdiv (fsub end' start) (fround True (- of_int repeat)))
                     (Finite False 1000)
      in if repeat = 0 then (Inl ZeroDivisionError, w3)
         else if overflow_threshold \<le> - of_int repeat then (Inl OverflowError, w3)
         else (Inr (), py_print (ljust 10 name @ ''  '' @ rjust 8 (fmt_2f avg_ms)
                                   @ '' ms per hash (over '' @ str_int repeat @ '' runs)'') w3))"
proof -
  have l: "fst (call_loop (nat repeat) hash_func (snd (perf_counter w))) = Inr ()"
    using assms by simp
  have n: "nat repeat = 0" using assms by simp
  have a: "\<bar>of_int repeat :: rat\<bar> = - of_int repeat" using assms by simp
  consider "repeat = 0" | "repeat < 0" "overflow_threshold \<le> \<bar>of_int repeat\<bar>"
    | "repeat < 0" "\<bar>of_int repeat\<bar> < overflow_threshold"
    using assms by linarith
  then show ?thesis
  proof cases
    case 1
    then show ?thesis by (simp add: time_hasher_zero Let_def)
  next
    case 2
    then show ?thesis
      using time_hasher_overflow [OF l 2(2), of name]
      by (simp add: Let_def n a perf_counter_def)
  next
    case 3
    then have "repeat \<noteq> 0" by simp
    from time_hasher_prints [OF l this 3(2), of name] 3 show ?thesis
      by (simp add: Let_def n a perf_counter_def)
  qed
qed

text \<open>
  The four cases at work: a quarter of a second between the readings and \<open>repeat = -3\<close>
  print \<^verbatim>\<open>-83.33\<close>; two equal readings print \<^verbatim>\<open>-0.00\<close>, the quotient being the float
  \<^verbatim>\<open>-0.0\<close>; \<open>repeat = -2\<^sup>1\<^sup>0\<^sup>2\<^sup>4\<close> and \<open>repeat = 0\<close> raise. The callable would raise on its
  first invocation; it is not invoked.
\<close>

theorem time_hasher_nonpositive_repeat_witness:
  "(-3::int) \<le> 0
   \<and> time_hasher ''SHA-256'' (failing_stub 1) (-3) sample_world
       = (Inr (), sample_world\<lparr>ticks := Suc (Suc 0),
            stdout := [''SHA-256       -83.33 ms per hash (over -3 runs)'']\<rparr>)
   \<and> time_hasher ''SHA-256'' (failing_stub 1) (-3) (world_at 1 1)
       = (Inr (), (world_at 1 1)\<lparr>ticks := Suc (Suc 0),
            stdout := [''SHA-256        -0.00 ms per hash (over -3 runs)'']\<rparr>)
   \<and> time_hasher ''SHA-256'' (failing_stub 1) (- (2 ^ 1024)) sample_world
       = (Inl OverflowError, sample_world\<lparr>ticks := Suc (Suc 0)\<rparr>)
   \<and> time_hasher ''SHA-256'' (failing_stub 1) 0 sample_world
       = (Inl ZeroDivisionError, sample_world\<lparr>ticks := Suc (Suc 0)\<rparr>)"
  using time_hasher_nonpositive_repeat [of "-3" "''SHA-256''" "failing_stub 1" sample_world]
    time_hasher_nonpositive_repeat [of "-3" "''SHA-256''" "failing_stub 1" "world_at 1 1"]
    time_hasher_nonpositive_repeat [of "- (2 ^ 1024)" "''SHA-256''" "failing_stub 1" sample_world]
    time_hasher_nonpositive_repeat [of 0 "''SHA-256''" "failing_stub 1" sample_world]
  by (simp add: sample_world_def world_at_def py_print_def float_eval fmt_eval)

text \<open>
  Claim C4 as stated, that a non-positive \<open>repeat\<close> fails with an invalid-argument error,
  does not hold: with \<open>repeat = -3\<close> the timer does not fail at all. It returns normally
  and has printed a line.
\<close>

theorem negative_repeat_does_not_fail:
  "time_hasher ''SHA-256'' (failing_stub 1) (-3) sample_world
     = (Inr (), sample_world\<lparr>ticks := Suc (Suc 0),
          stdout := [''SHA-256       -83.33 ms per hash (over -3 runs)'']\<rparr>)"
proof -
  have l: "fst (call_loop (nat (-3)) (failing_stub 1) (snd (perf_counter sample_world))) = Inr ()"
    by simp
  have a: "(-3::int) \<noteq> 0" by simp
  have b: "\<bar>of_int (-3) :: rat\<bar> < overflow_threshold" by (simp add: overflow_threshold_def)
  show ?thesis
    unfolding time_hasher_prints [OF l a b]
    apply (simp add: sample_world_def perf_counter_def py_print_def Let_def)
    apply (simp add: float_eval)
    apply (simp add: fmt_eval)
    done
qed




text \<open>
  Claim C5, as the code has it. Let the \<open>k\<close>-th invocation, \<open>1 \<le> k \<le> repeat\<close>, be the first
  that raises, with the exception \<open>e\<close>, leaving the world \<open>w'\<close>. Then the timer raises that
  very exception \<open>e\<close>, and the world it leaves is \<open>w'\<close>: the callable has been invoked
  exactly \<open>k\<close> times, the clock is not read again and nothing is printed. The exception is
  not wrapped and carries no iteration index.
\<close>

theorem time_hasher_failure_propagates:
  assumes "0 < k" and "int k \<le> repeat"
    and "\<forall>j < k - 1. fst (hash_func ((after hash_func ^^ j) (snd (perf_counter w)))) = Inr ()"
    and "hash_func ((after hash_func ^^ (k - 1)) (snd (perf_counter w))) = (Inl e, w')"
  shows "time_hasher name hash_func repeat w = (Inl e, w')"
proof -
  have "k - 1 < nat repeat" using assms(1,2) by linarith
  then show ?thesis using assms(3,4) by (rule time_hasher_failure)
qed

text \<open>
  A callable that raises \<^verbatim>\<open>RuntimeError\<close> on its third invocation, timed over five runs.
\<close>

theorem time_hasher_failure_propagates_witness:
  "time_hasher ''SHA-256'' (failing_stub 3) 5 sample_world
     = (Inl (Exn ''RuntimeError'' ''boom''),
        sample_world\<lparr>ticks := Suc 0,
          calls := [Sha256Hexdigest ''stub'', Sha256Hexdigest ''stub'', Sha256Hexdigest ''stub'']\<rparr>)"
proof -
  let ?f = "failing_stub 3"
  let ?w1 = "sample_world\<lparr>ticks := Suc 0\<rparr>"
  have p: "snd (perf_counter sample_world) = ?w1" by (simp add: perf_counter_def sample_world_def)
  have ok: "\<forall>j < 3 - 1. fst (?f ((after ?f ^^ j) (snd (perf_counter sample_world)))) = Inr ()"
    unfolding p
  proof (intro allI impI)
    fix j :: nat assume "j < 3 - 1"
    then consider "j = 0" | "j = 1" by force
    then show "fst (?f ((after ?f ^^ j) ?w1)) = Inr ()"
      by cases (simp_all add: after_def failing_stub_def sample_world_def)
  qed
  have bad: "?f ((after ?f ^^ (3 - 1)) (snd (perf_counter sample_world)))
      = (Inl (Exn ''RuntimeError'' ''boom''),
         sample_world\<lparr>ticks := Suc 0,
           calls := [Sha256Hexdigest ''stub'', Sha256Hexdigest ''stub'', Sha256Hexdigest ''stub'']\<rparr>)"
    unfolding p by (simp add: funpow_two after_def failing_stub_def sample_world_def)
  show ?thesis
    using time_hasher_failure_propagates [of 3 5 ?f sample_world _ _ "''SHA-256''", OF _ _ ok bad]
    by simp
qed

text \<open>
  Claim C5 as stated, that the timer propagates an operation-failed error tagged with the
  iteration, does not hold: for a callable that raises \<^verbatim>\<open>RuntimeError('boom')\<close> on its
  third invocation out of five, what leaves the timer is that \<^verbatim>\<open>RuntimeError\<close> itself.
  The callable has been invoked three times and nothing is printed.
\<close>

theorem failure_is_not_wrapped:
  "fst (time_hasher ''SHA-256'' (failing_stub 3) 5 sample_world) = Inl (Exn ''RuntimeError'' ''boom'')
   \<and> calls (snd (time_hasher ''SHA-256'' (failing_stub 3) 5 sample_world))
       = [Sha256Hexdigest ''stub'', Sha256Hexdigest ''stub'', Sha256Hexdigest ''stub'']
   \<and> stdout (snd (time_hasher ''SHA-256'' (failing_stub 3) 5 sample_world)) = []"
proof -
  let ?f = "failing_stub 3"
  let ?w1 = "sample_world\<lparr>ticks := Suc 0\<rparr>"
  have p: "snd (perf_counter sample_world) = ?w1" by (simp add: perf_counter_def sample_world_def)
  have ok: "\<forall>j < 2. fst (?f ((after ?f ^^ j) (snd (perf_counter sample_world)))) = Inr ()"
    unfolding p
  proof (intro allI impI)
    fix j :: nat assume "j < 2"
    then consider "j = 0" | "j = 1" by force
    then show "fst (?f ((after ?f ^^ j) ?w1)) = Inr ()"
      by cases (simp_all add: after_def failing_stub_def sample_world_def)
  qed
  have bad: "?f ((after ?f ^^ 2) (snd (perf_counter sample_world)))
      = (Inl (Exn ''RuntimeError'' ''boom''),
         sample_world\<lparr>ticks := Suc 0,
           calls := [Sha256Hexdigest ''stub'', Sha256Hexdigest ''stub'', Sha256Hexdigest ''stub'']\<rparr>)"
    unfolding p by (simp add: funpow_two after_def failing_stub_def sample_world_def)
  have "(2::nat) < nat 5" by simp
  then have "time_hasher ''SHA-256'' ?f 5 sample_world
      = (Inl (Exn ''RuntimeError'' ''boom''),
         sample_world\<lparr>ticks := Suc 0,
           calls := [Sha256Hexdigest ''stub'', Sha256Hexdigest ''stub'', Sha256Hexdigest ''stub'']\<rparr>)"
    using ok bad by (rule time_hasher_failure)
  then show ?thesis by (simp add: sample_world_def)
qed

subsection \<open>The sign of the mean\<close>

text \<open>
  A float that is not negative: \<open>+inf\<close>, a positive double, or one of the two zeros. The
  division by a positive double and the multiplication by \<^verbatim>\<open>1000.0\<close> keep it so.
\<close>

lemma fround_not_negative:
  "0 \<le> x \<Longrightarrow> fround False x = Infinity False \<or> (\<exists>a\<ge>0. fround False x = Finite False a)"
  using round_double_nonneg [of x] by (simp add: fround_def)

lemma fround_zero: "fround s 0 = Finite s 0"
  by (simp add: fround_def overflow_threshold_def)

lemma fsub_not_negative:
  assumes "float_le start end'" and "is_finite start"
  shows "fsub end' start = Infinity False \<or> (\<exists>a\<ge>0. fsub end' start = Finite False a)
         \<or> (\<exists>s. fsub end' start = Finite s 0)"
proof -
  obtain s a where st: "start = Finite s a" using assms(2) by (cases start) simp_all
  show ?thesis
  proof (cases end')
    case (Finite t b)
    let ?d = "signed t b - signed s a"
    have d: "0 \<le> ?d" using assms(1) st Finite by simp
    show ?thesis
    proof (cases "?d = 0")
      case True
      then show ?thesis using st Finite by (simp add: Let_def)
    next
      case False
      then have "fsub end' start = fround False ?d" using d st Finite by (simp add: Let_def)
      then show ?thesis using fround_not_negative [OF d] by auto
    qed
  next
    case (Infinity t)
    then show ?thesis using assms(1) st by simp
  next
    case NaN
    then show ?thesis using assms(1) st by simp
  qed
qed

lemma fdiv_not_negative:
  assumes "x = Infinity False \<or> (\<exists>a\<ge>0. x = Finite False a) \<or> (\<exists>s. x = Finite s 0)"
    and "0 < r"
  shows "fdiv x (Finite False r) = Infinity False \<or> (\<exists>a\<ge>0. fdiv x (Finite False r) = Finite False a)
         \<or> (\<exists>s. fdiv x (Finite False r) = Finite s 0)"
proof -
  consider "x = Infinity False" | a where "0 \<le> a" "x = Finite False a" | s where "x = Finite s 0"
    using assms(1) by blast
  then show ?thesis
  proof cases
    case 1
    then show ?thesis by simp
  next
    case 2
    have "0 \<le> a / r" using 2(1) assms(2) by simp
    from fround_not_negative [OF this] show ?thesis using 2(2) assms(2) by auto
  next
    case 3
    then show ?thesis using assms(2) by (simp add: fround_zero)
  qed
qed

lemma fmul_not_negative:
  assumes "x = Infinity False \<or> (\<exists>a\<ge>0. x = Finite False a) \<or> (\<exists>s. x = Finite s 0)"
    and "0 < r"
  shows "float_le (Finite False 0) (fmul x (Finite False r))"
proof -
  consider "x = Infinity False" | a where "0 \<le> a" "x = Finite False a" | s where "x = Finite s 0"
    using assms(1) by blast
  then show ?thesis
  proof cases
    case 1
    then show ?thesis using assms(2) by simp
  next
    case 2
    have "0 \<le> a * r" using 2(1) assms(2) by simp
    from fround_not_negative [OF this] show ?thesis using 2(2) by (auto simp: signed_def)
  next
    case 3
    then show ?thesis by (simp add: fround_zero signed_def)
  qed
qed

text \<open>
  Claim C7. Let \<open>repeat \<ge> 1\<close>, let no invocation raise, let the first reading be a finite
  float and the second reading be at least the first. Then the mean the timer computes,
  \<^verbatim>\<open>(end - start) / repeat * 1000.0\<close> in double arithmetic, is at least zero, and it is the
  latency of the line the timer prints. (For a \<open>repeat\<close> of \<open>2\<^sup>1\<^sup>0\<^sup>2\<^sup>4 - 2\<^sup>9\<^sup>7\<^sup>0\<close> or more no
  mean is computed: the division raises \<open>OverflowError\<close>.)
\<close>

theorem mean_latency_nonnegative:
  assumes "1 \<le> repeat"
    and "\<forall>k < nat repeat. fst (hash_func ((after hash_func ^^ k) (snd (perf_counter w)))) = Inr ()"
    and "is_finite (fst (perf_counter w))"
    and "float_le (fst (perf_counter w))
           (fst (perf_counter ((after hash_func ^^ nat repeat) (snd (perf_counter w)))))"
  shows "(let start = fst (perf_counter w);
              w2 = (after hash_func ^^ nat repeat) (snd (perf_counter w));
              end' = fst (perf_counter w2);
              avg_ms = fmul (fdiv (fsub end' start) (fround False (of_int repeat)))
                         (Finite False 1000)
          in if overflow_threshold \<le> of_int repeat
             then fst (time_hasher name hash_func repeat w) = Inl OverflowError
             else float_le (Finite False 0) avg_ms
                  \<and> time_hasher name hash_func repeat w
                      = (Inr (), py_print (ljust 10 name @ ''  '' @ rjust 8 (fmt_2f avg_ms)
                                             @ '' ms per hash (over '' @ str_int repeat @ '' runs)'')
                                   (snd (perf_counter w2))))"
proof -
  let ?start = "fst (perf_counter w)"
  let ?w2 = "(after hash_func ^^ nat repeat) (snd (perf_counter w))"
  let ?end = "fst (perf_counter ?w2)"
  have l: "fst (call_loop (nat repeat) hash_func (snd (perf_counter w))) = Inr ()"
    using assms(2) by (simp add: call_loop_ok_iff)
  have a: "\<bar>of_int repeat :: rat\<bar> = of_int repeat" and s: "\<not> repeat < 0" and z: "repeat \<noteq> 0"
    using assms(1) by simp_all
  show ?thesis
  proof (cases "overflow_threshold \<le> of_int repeat")
    case True
    then have "overflow_threshold \<le> \<bar>of_int repeat\<bar>" by (simp only: a)
    from time_hasher_overflow [OF l this, of name] True show ?thesis by (simp add: Let_def)
  next
    case False
    then have b: "\<bar>of_int repeat\<bar> < overflow_threshold" by (simp only: a not_le)
    have r: "fround False (of_int repeat) = Finite False (round_double (of_int repeat))"
      using False z by (simp add: fround_def)
    have "(1::rat) \<le> of_int repeat" using assms(1) by simp
    then have pos: "0 < round_double (of_int repeat)" by (rule round_double_pos)
    have "float_le (Finite False 0)
            (fmul (fdiv (fsub ?end ?start) (Finite False (round_double (of_int repeat))))
               (Finite False 1000))"
      by (rule fmul_not_negative [OF fdiv_not_negative [OF fsub_not_negative [OF assms(4,3)] pos]])
         simp
    then show ?thesis
      using time_hasher_prints [OF l z b, of name] False
      by (simp add: Let_def a s r)
  qed
qed

text \<open>
  Three runs of a callable that does nothing, a quarter of a second apart.
\<close>

theorem mean_latency_nonnegative_witness:
  "float_le (Finite False 0)
     (fmul (fdiv (fsub (Finite False (1 / 4)) (Finite False 0)) (Finite False 3))
        (Finite False 1000))
   \<and> time_hasher ''SHA-256'' noop 3 sample_world
     = (Inr (), sample_world\<lparr>ticks := Suc (Suc 0),
          stdout := [''SHA-256        83.33 ms per hash (over 3 runs)'']\<rparr>)"
proof -
  have n: "\<forall>k < nat 3. fst (noop ((after noop ^^ k) (snd (perf_counter sample_world)))) = Inr ()"
    by (simp add: noop_def)
  have f: "is_finite (fst (perf_counter sample_world))"
    by (simp add: perf_counter_def sample_world_def float_eval)
  have m: "float_le (fst (perf_counter sample_world))
             (fst (perf_counter ((after noop ^^ nat 3) (snd (perf_counter sample_world)))))"
    unfolding after_noop by (simp add: perf_counter_def sample_world_def float_eval)
  show ?thesis
    using mean_latency_nonnegative [of 3 noop sample_world "''SHA-256''", OF _ n f m]
    apply (simp add: after_noop)
    apply (simp add: sample_world_def perf_counter_def py_print_def Let_def)
    apply (simp add: float_eval)
    apply (simp add: fmt_eval)
    apply (simp add: sample_world_def perf_counter_def py_print_def)
    done
qed

subsection \<open>The shape of a formatted number\<close>

lemma digit_decimal: "d < 10 \<Longrightarrow> digit d \<in> set ''0123456789''"
proof -
  assume "d < 10"
  then have "d \<in> {0, 1, 2, 3, 4, 5, 6, 7, 8, 9}" by auto
  then show ?thesis by (auto simp: digit_def)
qed

lemma str_nat_decimal: "set (str_nat n) \<subseteq> set ''0123456789''"
proof (induction n rule: str_nat.induct)
  case (1 n)
  show ?case
  proof (cases "n < 10")
    case True
    then show ?thesis using digit_decimal [of n] by (simp add: str_nat_small)
  next
    case False
    have "n mod 10 < 10" by simp
    then have "digit (n mod 10) \<in> set ''0123456789''" by (rule digit_decimal)
    moreover have "set (str_nat (n div 10)) \<subseteq> set ''0123456789''" using False by (rule 1)
    ultimately show ?thesis using False by (simp add: str_nat_big)
  qed
qed

lemma str_nat_nonempty: "str_nat n \<noteq> []"
  by (cases "n < 10") (simp_all add: str_nat_small str_nat_big)

lemma fmt_2f_shape:
  "fmt_2f x = ''inf'' \<or> fmt_2f x = ''-inf'' \<or> fmt_2f x = ''nan''
   \<or> (\<exists>sign ds d1 d2. fmt_2f x = sign @ ds @ ''.'' @ [d1, d2]
         \<and> (sign = '''' \<or> sign = ''-'') \<and> ds \<noteq> []
         \<and> set ds \<subseteq> set ''0123456789'' \<and> d1 \<in> set ''0123456789''
         \<and> d2 \<in> set ''0123456789'')"
proof (cases x)
  case (Finite s m)
  let ?c = "round_half_even (m * 100)"
  have "?c mod 100 div 10 < 10" by (simp add: div_less_iff_less_mult)
  then have a: "digit (?c mod 100 div 10) \<in> set ''0123456789''" by (rule digit_decimal)
  have "?c mod 10 < 10" by simp
  then have b: "digit (?c mod 10) \<in> set ''0123456789''" by (rule digit_decimal)
  have c: "set (str_nat (?c div 100)) \<subseteq> set ''0123456789''" by (rule str_nat_decimal)
  have e: "fmt_2f x = (if s then ''-'' else '''') @ str_nat (?c div 100) @ ''.''
             @ [digit (?c mod 100 div 10), digit (?c mod 10)]"
    using Finite by (simp add: Let_def)
  have "(if s then ''-'' else '''') = '''' \<or> (if s then ''-'' else '''') = ''-''" by simp
  with e a b c str_nat_nonempty [of "?c div 100"] show ?thesis by blast
next
  case (Infinity s)
  then show ?thesis by simp
next
  case NaN
  then show ?thesis by simp
qed

lemma time_hasher_returns:
  assumes "time_hasher name f repeat w = (Inr (), w')"
  shows "\<exists>avg_ms w3. w' = py_print (ljust 10 name @ ''  '' @ rjust 8 (fmt_2f avg_ms)
                                      @ '' ms per hash (over '' @ str_int repeat @ '' runs)'') w3"
proof -
  obtain avg_ms w3 line where r: "result_line name avg_ms repeat = Inr line"
    and w': "w' = py_print line w3"
    using assms
    by (auto simp: time_hasher_def Let_def split: prod.splits sum.splits)
  from r have "line = ljust 10 name @ ''  '' @ rjust 8 (fmt_2f avg_ms)
                        @ '' ms per hash (over '' @ str_int repeat @ '' runs)''"
    by (auto simp: result_line_def py_str_int_def split: sum.splits if_splits)
  with w' show ?thesis by blast
qed

text \<open>
  Claim C6, as the code has it. Whenever the timer returns, the last thing it did was to
  print one line, which is made of
  \<^item> the name, followed by as many spaces as it takes to fill 10 characters (none for a
    name of 10 characters or more): the name is left-aligned;
  \<^item> two spaces;
  \<^item> the latency, preceded by as many spaces as it takes to fill 8 characters. The latency
    is an optional minus sign, one or more decimal digits, a point and exactly two decimal
    digits; or, for a float that is not finite, one of \<^verbatim>\<open>inf\<close>, \<^verbatim>\<open>-inf\<close> and \<^verbatim>\<open>nan\<close>;
  \<^item> the text \<^verbatim>\<open> ms per hash (over N runs)\<close>, where \<^verbatim>\<open>N\<close> is \<open>repeat\<close> in decimal.
\<close>

theorem result_line_layout:
  assumes "time_hasher name hash_func repeat w = (Inr (), w')"
  shows "\<exists>latency w3.
           w' = py_print (name @ replicate (10 - length name) CHR '' '' @ ''  ''
                            @ replicate (8 - length latency) CHR '' '' @ latency
                            @ '' ms per hash (over '' @ str_int repeat @ '' runs)'') w3
           \<and> (latency = ''inf'' \<or> latency = ''-inf'' \<or> latency = ''nan''
                \<or> (\<exists>sign ds d1 d2. latency = sign @ ds @ ''.'' @ [d1, d2]
                      \<and> (sign = '''' \<or> sign = ''-'') \<and> ds \<noteq> []
                      \<and> set ds \<subseteq> set ''0123456789'' \<and> d1 \<in> set ''0123456789''
                      \<and> d2 \<in> set ''0123456789''))"
proof -
  obtain avg_ms w3 where
    "w' = py_print (ljust 10 name @ ''  '' @ rjust 8 (fmt_2f avg_ms)
                      @ '' ms per hash (over '' @ str_int repeat @ '' runs)'') w3"
    using time_hasher_returns [OF assms] by blast
  then have "w' = py_print (name @ replicate (10 - length name) CHR '' '' @ ''  ''
                            @ replicate (8 - length (fmt_2f avg_ms)) CHR '' '' @ fmt_2f avg_ms
                            @ '' ms per hash (over '' @ str_int repeat @ '' runs)'') w3"
    by (simp add: ljust_def rjust_def)
  with fmt_2f_shape [of avg_ms] show ?thesis by blast
qed

text \<open>
  The line for \<^verbatim>\<open>bcrypt\<close>, a quarter of a second and 100 runs.
\<close>

theorem result_line_layout_witness:
  "time_hasher ''bcrypt'' noop 100 (world_at 0 (1 / 4))
     = (Inr (), (world_at 0 (1 / 4))\<lparr>ticks := Suc (Suc 0),
          stdout := [''bcrypt          2.50 ms per hash (over 100 runs)'']\<rparr>)
   \<and> (\<exists>latency w3.
         (world_at 0 (1 / 4))\<lparr>ticks := Suc (Suc 0),
            stdout := [''bcrypt          2.50 ms per hash (over 100 runs)'']\<rparr>
           = py_print (''bcrypt'' @ replicate (10 - length ''bcrypt'') CHR '' '' @ ''  ''
                            @ replicate (8 - length latency) CHR '' '' @ latency
                            @ '' ms per hash (over '' @ str_int 100 @ '' runs)'') w3
           \<and> (latency = ''inf'' \<or> latency = ''-inf'' \<or> latency = ''nan''
                \<or> (\<exists>sign ds d1 d2. latency = sign @ ds @ ''.'' @ [d1, d2]
                      \<and> (sign = '''' \<or> sign = ''-'') \<and> ds \<noteq> []
                      \<and> set ds \<subseteq> set ''0123456789'' \<and> d1 \<in> set ''0123456789''
                      \<and> d2 \<in> set ''0123456789'')))"
proof -
  have l: "fst (call_loop (nat 100) noop (snd (perf_counter (world_at 0 (1 / 4))))) = Inr ()"
    by (simp only: call_loop_ok_iff) (simp add: noop_def)
  have a: "(100::int) \<noteq> 0" by simp
  have b: "\<bar>of_int 100 :: rat\<bar> < overflow_threshold" by (simp add: overflow_threshold_def)
  have h: "time_hasher ''bcrypt'' noop 100 (world_at 0 (1 / 4))
     = (Inr (), (world_at 0 (1 / 4))\<lparr>ticks := Suc (Suc 0),
          stdout := [''bcrypt          2.50 ms per hash (over 100 runs)'']\<rparr>)"
    unfolding time_hasher_prints [OF l a b] after_noop
    apply (simp add: world_at_def perf_counter_def py_print_def Let_def)
    apply (simp add: float_eval)
    apply (simp add: fmt_eval)
    done
  from h result_line_layout [OF h] show ?thesis by (rule conjI)
qed

text \<open>
  Claim C6 as stated, the padded name directly followed by the latency field, does not
  hold. The line printed for \<^verbatim>\<open>bcrypt\<close> has the name at its left, then four spaces that
  fill the name field, two spaces more, and the latency in its field of 8. It is neither
  the line with the name padded on its left nor the line with the name padded on its right
  and no separator.
\<close>

theorem result_line_is_not_the_claimed_one:
  "stdout (snd (time_hasher ''bcrypt'' noop 100 (world_at 0 (1 / 4))))
     = [''bcrypt          2.50 ms per hash (over 100 runs)'']
   \<and> left_padded_line ''bcrypt'' (Finite False (5 / 2)) 100
     = ''    bcrypt    2.50 ms per hash (over 100 runs)''
   \<and> left_aligned_line ''bcrypt'' (Finite False (5 / 2)) 100
     = ''bcrypt        2.50 ms per hash (over 100 runs)''"
proof -
  have l: "fst (call_loop (nat 100) noop (snd (perf_counter (world_at 0 (1 / 4))))) = Inr ()"
    by (simp only: call_loop_ok_iff) (simp add: noop_def)
  have a: "(100::int) \<noteq> 0" by simp
  have b: "\<bar>of_int 100 :: rat\<bar> < overflow_threshold" by (simp add: overflow_threshold_def)
  have "time_hasher ''bcrypt'' noop 100 (world_at 0 (1 / 4))
     = (Inr (), (world_at 0 (1 / 4))\<lparr>ticks := Suc (Suc 0),
          stdout := [''bcrypt          2.50 ms per hash (over 100 runs)'']\<rparr>)"
    unfolding time_hasher_prints [OF l a b] after_noop
    apply (simp add: world_at_def perf_counter_def py_print_def Let_def)
    apply (simp add: float_eval)
    apply (simp add: fmt_eval)
    done
  then have 1: "stdout (snd (time_hasher ''bcrypt'' noop 100 (world_at 0 (1 / 4))))
     = [''bcrypt          2.50 ms per hash (over 100 runs)'']"
    by simp
  have 2: "left_padded_line ''bcrypt'' (Finite False (5 / 2)) 100
     = ''    bcrypt    2.50 ms per hash (over 100 runs)''"
    by (simp add: left_padded_line_def fmt_eval)
  have 3: "left_aligned_line ''bcrypt'' (Finite False (5 / 2)) 100
     = ''bcrypt        2.50 ms per hash (over 100 runs)''"
    by (simp add: left_aligned_line_def fmt_eval)
  from 1 2 3 show ?thesis by (simp only: simp_thms)
qed

section \<open>The factories and their closures\<close>

text \<open>An invocation of a closure records one call, and that is all it does to the world.\<close>

lemma funpow_log:
  assumes "\<And>w. f w = w\<lparr>calls := calls w @ [ev]\<rparr>"
  shows "(f ^^ k) w = w\<lparr>calls := calls w @ replicate k ev\<rparr>"
proof (induction k)
  case 0
  then show ?case by simp
next
  case (Suc k)
  then show ?case by (simp add: assms replicate_append_same)
qed

lemma invocations_bcrypt:
  "(after (do_hash L (BcryptHasher password salt)) ^^ k) w
     = w\<lparr>calls := calls w @ replicate k (BcryptHashpw password salt)\<rparr>"
  by (rule funpow_log) (simp add: after_def discard_def split: sum.splits)

lemma invocations_scrypt:
  "(after (do_hash L (ScryptHasher password salt n r p)) ^^ k) w
     = w\<lparr>calls := calls w @ replicate k (HashlibScrypt password salt n r p)\<rparr>"
  by (rule funpow_log) (simp add: after_def discard_def split: sum.splits)

lemma invocations_argon2id:
  "(after (do_hash L (Argon2idHasher password salt t m p)) ^^ k) w
     = w\<lparr>calls := calls w @ replicate k (Argon2HashSecret password salt t m p 32 Type_ID)\<rparr>"
  by (rule funpow_log) (simp add: after_def discard_def split: sum.splits)

text \<open>
  Claim C1. Each of the three factories generates its salt once, while it builds the
  closure: the world it leaves differs from the one it found by exactly one recorded
  salt-generating call (\<^verbatim>\<open>bcrypt.gensalt\<close> or \<^verbatim>\<open>os.urandom(16)\<close>) and by the 16 bytes
  drawn from the entropy source, and the closure holds that salt. (When
  \<^verbatim>\<open>bcrypt.gensalt\<close> rejects the cost, no closure is returned and nothing is drawn.) From
  any world, \<open>k\<close> invocations of the closure leave the world changed by \<open>k\<close> recorded calls
  only, each of them the hash itself with the captured password, salt and parameters: no
  invocation draws random bytes, generates a salt or calls anything else.
\<close>

theorem salt_generated_once:
  "(case make_bcrypt_hasher L password cost w of
      (Inl e, w') \<Rightarrow> w' = w\<lparr>calls := calls w @ [BcryptGensalt cost]\<rparr>
    | (Inr h, w') \<Rightarrow>
        (\<exists>salt. gensalt L cost (next_bytes 16 w) = Inr salt
           \<and> h = BcryptHasher password salt
           \<and> w' = w\<lparr>drawn := drawn w + 16, calls := calls w @ [BcryptGensalt cost]\<rparr>
           \<and> (\<forall>w0 k. (after (do_hash L h) ^^ k) w0
                  = w0\<lparr>calls := calls w0 @ replicate k (BcryptHashpw password salt)\<rparr>)))
   \<and> (case make_scrypt_hasher password n r p w of
        (h, w') \<Rightarrow>
          h = ScryptHasher password (next_bytes 16 w) n r p
          \<and> w' = w\<lparr>drawn := drawn w + 16, calls := calls w @ [OsUrandom 16]\<rparr>
          \<and> (\<forall>w0 k. (after (do_hash L h) ^^ k) w0
                 = w0\<lparr>calls := calls w0
                     @ replicate k (HashlibScrypt password (next_bytes 16 w) n r p)\<rparr>))
   \<and> (case make_argon2id_hasher password time_cost memory_cost parallelism w of
        (h, w') \<Rightarrow>
          h = Argon2idHasher password (next_bytes 16 w) time_cost memory_cost parallelism
          \<and> w' = w\<lparr>drawn := drawn w + 16, calls := calls w @ [OsUrandom 16]\<rparr>
          \<and> (\<forall>w0 k. (after (do_hash L h) ^^ k) w0
                 = w0\<lparr>calls := calls w0
                     @ replicate k (Argon2HashSecret password (next_bytes 16 w) time_cost
                                      memory_cost parallelism 32 Type_ID)\<rparr>))"
proof (intro conjI)
  show "case make_bcrypt_hasher L password cost w of
      (Inl e, w') \<Rightarrow> w' = w\<lparr>calls := calls w @ [BcryptGensalt cost]\<rparr>
    | (Inr h, w') \<Rightarrow>
        (\<exists>salt. gensalt L cost (next_bytes 16 w) = Inr salt
           \<and> h = BcryptHasher password salt
           \<and> w' = w\<lparr>drawn := drawn w + 16, calls := calls w @ [BcryptGensalt cost]\<rparr>
           \<and> (\<forall>w0 k. (after (do_hash L h) ^^ k) w0
                  = w0\<lparr>calls := calls w0 @ replicate k (BcryptHashpw password salt)\<rparr>))"
    by (cases "gensalt L cost (next_bytes 16 w)")
       (simp_all add: make_bcrypt_hasher_def bcrypt_gensalt_def invocations_bcrypt)
next
  show "case make_scrypt_hasher password n r p w of
        (h, w') \<Rightarrow>
          h = ScryptHasher password (next_bytes 16 w) n r p
          \<and> w' = w\<lparr>drawn := drawn w + 16, calls := calls w @ [OsUrandom 16]\<rparr>
          \<and> (\<forall>w0 k. (after (do_hash L h) ^^ k) w0
                 = w0\<lparr>calls := calls w0
                     @ replicate k (HashlibScrypt password (next_bytes 16 w) n r p)\<rparr>)"
    by (simp add: make_scrypt_hasher_def os_urandom_def invocations_scrypt)
next
  show "case make_argon2id_hasher password time_cost memory_cost parallelism w of
        (h, w') \<Rightarrow>
          h = Argon2idHasher password (next_bytes 16 w) time_cost memory_cost parallelism
          \<and> w' = w\<lparr>drawn := drawn w + 16, calls := calls w @ [OsUrandom 16]\<rparr>
          \<and> (\<forall>w0 k. (after (do_hash L h) ^^ k) w0
                 = w0\<lparr>calls := calls w0
                     @ replicate k (Argon2HashSecret password (next_bytes 16 w) time_cost
                                      memory_cost parallelism 32 Type_ID)\<rparr>)"
    by (simp add: make_argon2id_hasher_def os_urandom_def invocations_argon2id)
qed

lemma next_bytes_sample: "next_bytes 16 sample_world = ''aaaaaaaaaaaaaaaa''"
  by (simp add: next_bytes_def sample_world_def upt_conv_Cons)

lemma make_bcrypt_sample:
  "make_bcrypt_hasher sample_lib ''pw'' 12 sample_world
     = (Inr (BcryptHasher ''pw'' ''$2b$12$aaaaaaaaaaaaaaaa''),
        sample_world\<lparr>drawn := 16, calls := [BcryptGensalt 12]\<rparr>)"
  by (simp add: make_bcrypt_hasher_def bcrypt_gensalt_def next_bytes_sample)
     (simp add: sample_lib_def sample_world_def str_int_def str_nat_small str_nat_big digit_def)

text \<open>
  The bcrypt factory with the cost 12, and three invocations of its closure.
\<close>

theorem salt_generated_once_witness:
  "make_bcrypt_hasher sample_lib ''pw'' 12 sample_world
     = (Inr (BcryptHasher ''pw'' ''$2b$12$aaaaaaaaaaaaaaaa''),
        sample_world\<lparr>drawn := 16, calls := [BcryptGensalt 12]\<rparr>)
   \<and> (after (do_hash sample_lib (BcryptHasher ''pw'' ''$2b$12$aaaaaaaaaaaaaaaa'')) ^^ 3)
       (sample_world\<lparr>drawn := 16, calls := [BcryptGensalt 12]\<rparr>)
     = sample_world\<lparr>drawn := 16,
         calls := [BcryptGensalt 12, BcryptHashpw ''pw'' ''$2b$12$aaaaaaaaaaaaaaaa'',
                   BcryptHashpw ''pw'' ''$2b$12$aaaaaaaaaaaaaaaa'',
                   BcryptHashpw ''pw'' ''$2b$12$aaaaaaaaaaaaaaaa'']\<rparr>"
proof -
  have "case make_bcrypt_hasher sample_lib ''pw'' 12 sample_world of
      (Inl e, w') \<Rightarrow> w' = sample_world\<lparr>calls := calls sample_world @ [BcryptGensalt 12]\<rparr>
    | (Inr h, w') \<Rightarrow>
        (\<exists>salt. gensalt sample_lib 12 (next_bytes 16 sample_world) = Inr salt
           \<and> h = BcryptHasher ''pw'' salt
           \<and> w' = sample_world\<lparr>drawn := drawn sample_world + 16,
                    calls := calls sample_world @ [BcryptGensalt 12]\<rparr>
           \<and> (\<forall>w0 k. (after (do_hash sample_lib h) ^^ k) w0
                  = w0\<lparr>calls := calls w0 @ replicate k (BcryptHashpw ''pw'' salt)\<rparr>))"
    using salt_generated_once [where L = sample_lib and password = "''pw''" and cost = 12
      and w = sample_world]
    by (rule conjunct1)
  then have "(after (do_hash sample_lib (BcryptHasher ''pw'' ''$2b$12$aaaaaaaaaaaaaaaa'')) ^^ k) w0
      = w0\<lparr>calls := calls w0
            @ replicate k (BcryptHashpw ''pw'' ''$2b$12$aaaaaaaaaaaaaaaa'')\<rparr>" for w0 k
    unfolding make_bcrypt_sample by auto
  then show ?thesis
    by (simp add: make_bcrypt_sample replicate_numeral)
qed







section \<open>The main block\<close>

text \<open>
  Claim C3, as the code has it. The only factory that can raise is the one for bcrypt,
  when \<^verbatim>\<open>bcrypt.gensalt\<close> rejects the cost. If the header has been printed and
  \<^verbatim>\<open>bcrypt.gensalt\<close> raises \<open>e\<close>, then \<open>e\<close> leaves the main block: the run ends there with
  the exit status 1. The world is the one after the header, with the call of
  \<^verbatim>\<open>bcrypt.gensalt\<close> recorded: nothing more is printed, no other closure is built and no
  algorithm is timed.
\<close>

theorem factory_failure_aborts_run:
  assumes "print_lines (header_lines cfg) w = (Inr (), w1)"
    and "gensalt L (BCRYPT_COST cfg) (next_bytes 16 w1) = Inl e"
  shows "main_block cfg L w = (Inl e, w1\<lparr>calls := calls w1 @ [BcryptGensalt (BCRYPT_COST cfg)]\<rparr>)
         \<and> exit_status (fst (main_block cfg L w)) = 1"
  using assms by (simp add: main_block_def make_bcrypt_hasher_def bcrypt_gensalt_def exit_status_def)

lemma header_low_cost:
  "header_lines low_cost_constants =
     [Inr (''Password hashing timing demo'' @ [CHR 0x0A]),
      Inr (''Password: b'' @ [CHR 0x27] @ ''correct horse battery staple'' @ [CHR 0x27]),
      Inr ''Repetitions per algorithm: 100'',
      Inr '''',
      Inr ''Parameters used:'',
      Inr ''- bcrypt:  cost=3'',
      Inr ''- scrypt:  N=16384, r=8, p=1'',
      Inr ''- Argon2id: time_cost=2, memory_cost=64000 KiB, parallelism=1'',
      Inr '''']"
  apply (simp add: header_lines_def low_cost_constants_def module_constants_def)
  apply (simp add: py_str_int_def int_max_str_digits_def str_int_def str_nat_small str_nat_big
      digit_def)
  apply (simp add: bytes_repr_def repr_quote_def repr_byte_def Let_def)
  done

lemma print_header_low_cost:
  "print_lines (header_lines low_cost_constants) sample_world =
     (Inr (), sample_world\<lparr>stdout :=
        [''Password hashing timing demo'' @ [CHR 0x0A],
         ''Password: b'' @ [CHR 0x27] @ ''correct horse battery staple'' @ [CHR 0x27],
         ''Repetitions per algorithm: 100'',
         '''',
         ''Parameters used:'',
         ''- bcrypt:  cost=3'',
         ''- scrypt:  N=16384, r=8, p=1'',
         ''- Argon2id: time_cost=2, memory_cost=64000 KiB, parallelism=1'',
         '''']\<rparr>)"
  by (simp add: header_low_cost py_print_def sample_world_def)

lemma gensalt_low_cost:
  "gensalt sample_lib (BCRYPT_COST low_cost_constants) r = Inl (Exn ''ValueError'' ''Invalid rounds'')"
  by (simp add: sample_lib_def low_cost_constants_def module_constants_def)

text \<open>
  The module constants with a bcrypt cost of 3, which the library rejects.
\<close>

theorem factory_failure_aborts_run_witness:
  "main_block low_cost_constants sample_lib sample_world =
     (Inl (Exn ''ValueError'' ''Invalid rounds''),
      sample_world\<lparr>calls := [BcryptGensalt 3], stdout :=
        [''Password hashing timing demo'' @ [CHR 0x0A],
         ''Password: b'' @ [CHR 0x27] @ ''correct horse battery staple'' @ [CHR 0x27],
         ''Repetitions per algorithm: 100'',
         '''',
         ''Parameters used:'',
         ''- bcrypt:  cost=3'',
         ''- scrypt:  N=16384, r=8, p=1'',
         ''- Argon2id: time_cost=2, memory_cost=64000 KiB, parallelism=1'',
         '''']\<rparr>)
   \<and> exit_status (fst (main_block low_cost_constants sample_lib sample_world)) = 1"
proof -
  have c: "BCRYPT_COST low_cost_constants = 3"
    by (simp add: low_cost_constants_def)
  have e: "calls sample_world = []"
    by (simp add: sample_world_def)
  from factory_failure_aborts_run [OF print_header_low_cost gensalt_low_cost]
  show ?thesis by (simp add: c e exit_status_def)
qed

text \<open>
  Claim C3 as stated, that the run goes on with the other algorithms and exits with the
  status 0, does not hold. With a bcrypt cost of 3 the run ends with the \<^verbatim>\<open>ValueError\<close> of
  \<^verbatim>\<open>bcrypt.gensalt\<close> and the exit status 1. The only library call made is that one, and the
  output is the header: no line about the failure, no result for any algorithm.
\<close>

theorem rejected_bcrypt_cost_ends_the_run:
  "raised (fst (main_block low_cost_constants sample_lib sample_world)) = Some ''ValueError''
   \<and> exit_status (fst (main_block low_cost_constants sample_lib sample_world)) = 1
   \<and> calls (snd (main_block low_cost_constants sample_lib sample_world)) = [BcryptGensalt 3]
   \<and> stdout (snd (main_block low_cost_constants sample_lib sample_world)) =
        [''Password hashing timing demo'' @ [CHR 0x0A],
         ''Password: b'' @ [CHR 0x27] @ ''correct horse battery staple'' @ [CHR 0x27],
         ''Repetitions per algorithm: 100'',
         '''',
         ''Parameters used:'',
         ''- bcrypt:  cost=3'',
         ''- scrypt:  N=16384, r=8, p=1'',
         ''- Argon2id: time_cost=2, memory_cost=64000 KiB, parallelism=1'',
         '''']"
  by (simp add: main_block_def print_header_low_cost make_bcrypt_hasher_def bcrypt_gensalt_def
        gensalt_low_cost raised_def exit_status_def)
     (simp add: sample_world_def low_cost_constants_def module_constants_def)

end
